theory Spec2Isabelle
  imports Complex_Main "HOL-Library.Word"
begin

unbundle bit_operations_syntax

section \<open>Mobile client: the hand-written base64 codec\<close>

text \<open>
  From \<^verbatim>\<open>mobile/utils/pdfConverter.ts\<close>. A \<^verbatim>\<open>Uint8Array\<close> is a list of 8-bit words.
  The numbers that go through the bit operations of the two functions stay below
  \<open>2 ^ 24\<close>, so the 32-bit wrap-around of JavaScript's bit operators never occurs and
  they are natural numbers here; a store into a \<^verbatim>\<open>Uint8Array\<close> keeps the low 8 bits
  (\<open>word_of_nat\<close>). Strings hold ASCII only on every path of the two functions.
\<close>

type_synonym uint8Array = "8 word list"

definition chars_decode :: string where
  "chars_decode = ''ABCDEFGHIJKLMNOPQRSTUVWXYZabcdefghijklmnopqrstuvwxyz0123456789+/=''"

definition chars_encode :: string where
  "chars_encode = ''ABCDEFGHIJKLMNOPQRSTUVWXYZabcdefghijklmnopqrstuvwxyz0123456789+/''"

text \<open>
  \<^verbatim>\<open>for (let i = 0; i < chars.length; i++) lookup[chars.charCodeAt(i)] = i;\<close>
  on a zero-filled table.
\<close>

definition lookup :: "char \<Rightarrow> nat" where
  "lookup = fold (\<lambda>i tab. tab(chars_decode ! i := i)) [0..<length chars_decode] (\<lambda>_. 0)"

text \<open>The character class \<^verbatim>\<open>[A-Za-z0-9\+\/]\<close>; the decoder removes every other character.\<close>

definition charCode :: "char \<Rightarrow> nat" where
  "charCode ch = of_char ch"

definition base64_char :: "char \<Rightarrow> bool" where
  "base64_char ch \<longleftrightarrow>
     (charCode CHR ''A'' \<le> charCode ch \<and> charCode ch \<le> charCode CHR ''Z'') \<or>
     (charCode CHR ''a'' \<le> charCode ch \<and> charCode ch \<le> charCode CHR ''z'') \<or>
     (charCode CHR ''0'' \<le> charCode ch \<and> charCode ch \<le> charCode CHR ''9'') \<or>
     ch = CHR ''+'' \<or> ch = CHR ''/''"

text \<open>
  \<^verbatim>\<open>lookup[base64Data.charCodeAt(j)]\<close>: past the end of the string \<^verbatim>\<open>charCodeAt\<close> is
  \<^verbatim>\<open>NaN\<close>, the table read is \<^verbatim>\<open>undefined\<close>, and the bit operators read that as 0.
\<close>

definition encoded_at :: "string \<Rightarrow> nat \<Rightarrow> nat" where
  "encoded_at base64Data j = (if j < length base64Data then lookup (base64Data ! j) else 0)"

text \<open>\<^verbatim>\<open>bytes[p] = v\<close> on a typed array: ignored when \<open>p\<close> is out of range.\<close>

definition store :: "uint8Array \<Rightarrow> nat \<Rightarrow> nat \<Rightarrow> uint8Array" where
  "store bytes p v = (if p < length bytes then bytes[p := word_of_nat v] else bytes)"

function decode_loop :: "string \<Rightarrow> nat \<Rightarrow> nat \<Rightarrow> uint8Array \<Rightarrow> uint8Array" where
  "decode_loop base64Data i p bytes =
     (if i < length base64Data then
        let encoded1 = encoded_at base64Data i;
            encoded2 = encoded_at base64Data (i + 1);
            encoded3 = encoded_at base64Data (i + 2);
            encoded4 = encoded_at base64Data (i + 3);
            bytes1 = store bytes p (push_bit 2 encoded1 OR drop_bit 4 encoded2);
            bytes2 = store bytes1 (p + 1) (push_bit 4 (encoded2 AND 15) OR drop_bit 2 encoded3);
            bytes3 = store bytes2 (p + 2) (push_bit 6 (encoded3 AND 3) OR (encoded4 AND 63))
        in decode_loop base64Data (i + 4) (p + 3) bytes3
      else bytes)"
  by pat_completeness auto
termination
  by (relation "measure (\<lambda>(base64Data, i, p, bytes). length base64Data - i)") auto

text \<open>
  \<^verbatim>\<open>bufferLength = base64Data.length * 0.75\<close>; \<^verbatim>\<open>new Uint8Array\<close> truncates a fractional
  length.
\<close>

definition base64ToUint8Array :: "string \<Rightarrow> uint8Array" where
  "base64ToUint8Array base64 =
     (let base64Data = filter base64_char base64;
          bufferLength = (length base64Data * 3) div 4
      in decode_loop base64Data 0 0 (replicate bufferLength 0))"

text \<open>\<^verbatim>\<open>chars.charAt(k)\<close>: the empty string when \<open>k\<close> is out of range.\<close>

definition charAt :: "string \<Rightarrow> nat \<Rightarrow> string" where
  "charAt s k = (if k < length s then [s ! k] else [])"

text \<open>
  The \<^verbatim>\<open>while\<close> loop of the encoder. \<open>i1\<close>, \<open>i2\<close>, \<open>i3\<close> are the values of \<^verbatim>\<open>i\<close> after each
  of the three conditional \<^verbatim>\<open>i++\<close>; the two padding tests \<^verbatim>\<open>i - 2 < bytes.length\<close> and
  \<^verbatim>\<open>i - 1 < bytes.length\<close> are on integers, since \<^verbatim>\<open>i - 2\<close> can be negative.
\<close>

function encode_loop :: "uint8Array \<Rightarrow> nat \<Rightarrow> string \<Rightarrow> string" where
  "encode_loop bytes i result =
     (if i < length bytes then
        let a = unat (bytes ! i);
            i1 = i + 1;
            b = (if i1 < length bytes then unat (bytes ! i1) else 0);
            i2 = (if i1 < length bytes then i1 + 1 else i1);
            c = (if i2 < length bytes then unat (bytes ! i2) else 0);
            i3 = (if i2 < length bytes then i2 + 1 else i2);
            bitmap = push_bit 16 a OR push_bit 8 b OR c;
            result1 = result @ charAt chars_encode (drop_bit 18 bitmap AND 63);
            result2 = result1 @ charAt chars_encode (drop_bit 12 bitmap AND 63);
            result3 = result2 @ (if int i3 - 2 < int (length bytes)
                                 then charAt chars_encode (drop_bit 6 bitmap AND 63) else ''='');
            result4 = result3 @ (if int i3 - 1 < int (length bytes)
                                 then charAt chars_encode (bitmap AND 63) else ''='')
        in encode_loop bytes i3 result4
      else result)"
  by pat_completeness auto
termination
  by (relation "measure (\<lambda>(bytes, i, result). length bytes - i)") auto

definition uint8ArrayToBase64 :: "uint8Array \<Rightarrow> string" where
  "uint8ArrayToBase64 bytes = encode_loop bytes 0 ''''"

text \<open>
  For the proofs about the codec: a full group of three bytes, the four 6-bit numbers the
  encoder's loop body computes from it, and the four characters it appends for it.
\<close>

definition sextets :: "8 word \<times> 8 word \<times> 8 word \<Rightarrow> nat list" where
  "sextets g =
     (case g of (a, b, c) \<Rightarrow>
        let bitmap = push_bit 16 (unat a) OR push_bit 8 (unat b) OR unat c
        in [drop_bit 18 bitmap AND 63, drop_bit 12 bitmap AND 63, drop_bit 6 bitmap AND 63,
            bitmap AND 63])"

definition encode_group :: "8 word \<times> 8 word \<times> 8 word \<Rightarrow> string" where
  "encode_group g = map (\<lambda>k. chars_encode ! k) (sextets g)"

definition group_bytes :: "8 word \<times> 8 word \<times> 8 word \<Rightarrow> uint8Array" where
  "group_bytes g = (case g of (a, b, c) \<Rightarrow> [a, b, c])"

section \<open>The page compositor, in both variants\<close>

text \<open>
  JavaScript numbers are IEEE doubles; the layout arithmetic is modelled over the reals, the
  idealisation the specification itself takes when it compares "within floating-point
  tolerance". Pixel dimensions are natural numbers. Division by zero is \<^verbatim>\<open>Infinity\<close> in
  JavaScript and 0 in HOL, so the layouts below mean the program's only for positive
  dimensions.
\<close>

record layout =
  scale :: real
  scaledWidth :: real
  scaledHeight :: real
  drawX :: real
  drawY :: real

text \<open>\<^verbatim>\<open>const pageWidth = 595; const pageHeight = 842;\<close> (A4 in points).\<close>

definition pageWidth :: real where
  "pageWidth = 595"

definition pageHeight :: real where
  "pageHeight = 842"

text \<open>
  Server, \<^verbatim>\<open>backend/src/utils/pdfConverter.ts\<close>, lines 129 to 139:
  \<^verbatim>\<open>scale = Math.min(scaleX, scaleY)\<close>.
\<close>

definition server_layout :: "nat \<Rightarrow> nat \<Rightarrow> layout" where
  "server_layout imageWidth imageHeight =
     (let scaleX = pageWidth / real imageWidth;
          scaleY = pageHeight / real imageHeight;
          scale = min scaleX scaleY;
          scaledWidth = real imageWidth * scale;
          scaledHeight = real imageHeight * scale;
          x = (pageWidth - scaledWidth) / 2;
          y = (pageHeight - scaledHeight) / 2
      in \<lparr>scale = scale, scaledWidth = scaledWidth, scaledHeight = scaledHeight,
          drawX = x, drawY = y\<rparr>)"

text \<open>
  Device, \<^verbatim>\<open>mobile/utils/pdfConverter.ts\<close>, lines 104 to 121: the page is
  \<^verbatim>\<open>addPage([595, 842])\<close>, and \<^verbatim>\<open>scale = Math.min(pageWidth / w, pageHeight / h, 1)\<close>.
\<close>

definition client_layout :: "nat \<Rightarrow> nat \<Rightarrow> layout" where
  "client_layout width height =
     (let scale = min (pageWidth / real width) (min (pageHeight / real height) 1);
          scaledWidth = real width * scale;
          scaledHeight = real height * scale;
          x = (pageWidth - scaledWidth) / 2;
          y = (pageHeight - scaledHeight) / 2
      in \<lparr>scale = scale, scaledWidth = scaledWidth, scaledHeight = scaledHeight,
          drawX = x, drawY = y\<rparr>)"

section \<open>Mobile client: choosing the conversion path\<close>

text \<open>
  \<^verbatim>\<open>canConvertClientSide\<close> returns \<^verbatim>\<open>false\<close> on its first line; the former logic is
  commented out in the source.
\<close>

definition canConvertClientSide :: "string \<Rightarrow> bool" where
  "canConvertClientSide mimeType = False"

text \<open>
  The conversion screen (\<^verbatim>\<open>mobile/app/(tabs)/pdf-convert.tsx\<close>): the DEVICE button, the
  only caller of the device-side converter, is rendered when \<^verbatim>\<open>canConvertClient\<close> holds;
  the SERVER button is rendered for every selected file.
\<close>

record selectedFile =
  file_uri :: string
  file_name :: string
  file_type :: string

datatype convertButton = DEVICE | SERVER

definition canConvertClient :: "selectedFile option \<Rightarrow> bool" where
  "canConvertClient selected =
     (case selected of Some f \<Rightarrow> canConvertClientSide (file_type f) | None \<Rightarrow> False)"

definition convertButtons :: "selectedFile option \<Rightarrow> convertButton list" where
  "convertButtons selected =
     (case selected of
        None \<Rightarrow> []
      | Some f \<Rightarrow> (if canConvertClient selected then [DEVICE] else []) @ [SERVER])"

section \<open>JavaScript string helpers\<close>

text \<open>\<^verbatim>\<open>s.startsWith(p)\<close> and \<^verbatim>\<open>s.includes(t)\<close>.\<close>

definition startsWith :: "string \<Rightarrow> string \<Rightarrow> bool" where
  "startsWith s p \<longleftrightarrow> take (length p) s = p"

fun str_includes :: "string \<Rightarrow> string \<Rightarrow> bool" where
  "str_includes [] t \<longleftrightarrow> t = []"
| "str_includes (ch # s) t \<longleftrightarrow> startsWith (ch # s) t \<or> str_includes s t"

text \<open>\<^verbatim>\<open>s.replace(t, '')\<close> with a string pattern: the first occurrence of \<open>t\<close> is removed.\<close>

fun remove_first :: "string \<Rightarrow> string \<Rightarrow> string" where
  "remove_first [] t = []"
| "remove_first (ch # s) t =
     (if startsWith (ch # s) t then drop (length t) (ch # s) else ch # remove_first s t)"

text \<open>\<^verbatim>\<open>s.replace(/^\/uploads\//, '')\<close>: the pattern is anchored at the start.\<close>

definition remove_uploads_prefix :: "string \<Rightarrow> string" where
  "remove_uploads_prefix s =
     (if startsWith s ''/uploads/'' then drop (length ''/uploads/'') s else s)"

text \<open>
  \<^verbatim>\<open>s.replace(/\.[^/.]+$/, '')\<close>: a final dot followed by one or more characters other
  than dot and slash is removed.
\<close>

definition remove_extension :: "string \<Rightarrow> string" where
  "remove_extension s =
     (let ext = takeWhile (\<lambda>ch. ch \<noteq> CHR ''.'' \<and> ch \<noteq> CHR ''/'') (rev s);
          rest = dropWhile (\<lambda>ch. ch \<noteq> CHR ''.'' \<and> ch \<noteq> CHR ''/'') (rev s)
      in case rest of
           [] \<Rightarrow> s
         | ch # stem \<Rightarrow> if ch = CHR ''.'' \<and> ext \<noteq> [] then rev stem else s)"

text \<open>
  \<^verbatim>\<open>path.join(a, b)\<close>, without Node's normalisation of the result: every path of the
  model is built by this function, so equal files get equal paths.
\<close>

definition path_join :: "string \<Rightarrow> string \<Rightarrow> string" where
  "path_join a b = a @ ''/'' @ b"

text \<open>\<^verbatim>\<open>process.env.UPLOAD_DIR || './uploads'\<close>, at its default.\<close>

definition UPLOAD_DIR :: string where
  "UPLOAD_DIR = ''./uploads''"

definition PDF_DIR :: string where
  "PDF_DIR = path_join UPLOAD_DIR ''pdfs''"

section \<open>Server: the conversion pipeline\<close>

text \<open>
  \<^verbatim>\<open>backend/src/utils/pdfConverter.ts\<close>. The libraries the pipeline calls (sharp,
  heic-convert, pdfkit), the clock and the database's id generator are parameters: a
  failing call returns \<open>Inl\<close> with the message of the error it throws.
\<close>

record metadata =
  md_format :: "string option"
  md_width :: "nat option"
  md_height :: "nat option"

text \<open>
  What the wait for pdfkit's \<^verbatim>\<open>'end'\<close> event can see: the document's bytes, an
  \<^verbatim>\<open>'error'\<close> event, or the 10 second timer; \<^verbatim>\<open>doc.image\<close> can throw before that.
\<close>

datatype pdfkitOutcome =
  ImageThrows string
  | DocEnd uint8Array
  | DocError string
  | DocTimeout

record env =
  sharp_metadata :: "uint8Array \<Rightarrow> string + metadata"
  heicConvert :: "uint8Array \<Rightarrow> string + uint8Array"
  sharp_resize_jpeg :: "uint8Array \<Rightarrow> string + uint8Array"
  pdfkit :: "uint8Array \<Rightarrow> real \<times> real \<times> real \<times> real \<Rightarrow> pdfkitOutcome"
  basename_without_ext :: "string \<Rightarrow> string"
  date_now :: string
  new_id :: string

text \<open>
  The calls to the image libraries, in the order they are made: \<open>SharpMetadata\<close> is the
  format detection \<^verbatim>\<open>sharp(buf).metadata()\<close>, \<open>HeicConvert\<close> the HEIC sub-decoder,
  \<open>SharpDecode\<close> the generic decoder \<^verbatim>\<open>sharp(buf).resize(...).jpeg(...).toBuffer()\<close>.
\<close>

datatype libCall =
  SharpMetadata uint8Array
  | HeicConvert uint8Array
  | SharpDecode uint8Array

fun is_decode :: "libCall \<Rightarrow> bool" where
  "is_decode (SharpMetadata buf) = False"
| "is_decode (HeicConvert buf) = True"
| "is_decode (SharpDecode buf) = True"

text \<open>
  The message of line 94, with its line breaks and with the arrow of its third step as
  the three bytes of its UTF-8 form.
\<close>

definition heic_not_supported :: string where
  "heic_not_supported =
     ''HEIC/HEIF format not supported. Convert to JPEG in Photos app first:'' @ [CHR 0x0A] @
     ''1. Open Photos'' @ [CHR 0x0A] @ ''2. Select image'' @ [CHR 0x0A] @
     ''3. Share '' @ [CHR 0xE2, CHR 0x86, CHR 0x92] @ '' Save as JPEG'' @ [CHR 0x0A] @
     ''4. Then upload the JPEG''"

text \<open>\<^verbatim>\<open>msg || 'Unknown error'\<close>: the empty string is falsy.\<close>

definition or_else :: "string \<Rightarrow> string \<Rightarrow> string" where
  "or_else msg dflt = (if msg = [] then dflt else msg)"

text \<open>
  A computation that calls the image libraries gives the calls it made and its result.
  Every library call of the pipeline goes through one of the three functions below, which
  put the call and its argument in the log; \<open>and_then\<close> runs the next step on a result
  and stops at an error, as the statements of a \<^verbatim>\<open>try\<close> block do; \<open>rethrow\<close> is a
  \<^verbatim>\<open>catch\<close> that throws a new message made from the one caught.
\<close>

type_synonym 'a logged = "libCall list \<times> (string + 'a)"

definition sharp_metadata_call :: "env \<Rightarrow> uint8Array \<Rightarrow> metadata logged" where
  "sharp_metadata_call E buf = ([SharpMetadata buf], sharp_metadata E buf)"

definition heicConvert_call :: "env \<Rightarrow> uint8Array \<Rightarrow> uint8Array logged" where
  "heicConvert_call E buf = ([HeicConvert buf], heicConvert E buf)"

definition sharp_decode_call :: "env \<Rightarrow> uint8Array \<Rightarrow> uint8Array logged" where
  "sharp_decode_call E buf = ([SharpDecode buf], sharp_resize_jpeg E buf)"

definition and_then :: "'a logged \<Rightarrow> ('a \<Rightarrow> 'b logged) \<Rightarrow> 'b logged" where
  "and_then m f =
     (case snd m of
        Inl msg \<Rightarrow> (fst m, Inl msg)
      | Inr v \<Rightarrow> (fst m @ fst (f v), snd (f v)))"

definition rethrow :: "'a logged \<Rightarrow> (string \<Rightarrow> string) \<Rightarrow> 'a logged" where
  "rethrow m wrap =
     (case snd m of
        Inl msg \<Rightarrow> (fst m, Inl (wrap msg))
      | Inr v \<Rightarrow> m)"

text \<open>Line 71, the message of the inner \<^verbatim>\<open>catch (heicError)\<close>.\<close>

definition heic_failed :: "string \<Rightarrow> string" where
  "heic_failed msg =
     ''Failed to convert HEIC image: '' @ msg @ ''. This may indicate a corrupted HEIC file.''"

text \<open>Lines 89 to 98, the message of the outer \<^verbatim>\<open>catch (sharpError)\<close>.\<close>

definition classify_sharp_error :: "string \<Rightarrow> string" where
  "classify_sharp_error msg =
     (if str_includes msg ''heif'' \<or> str_includes msg ''heic'' \<or>
         str_includes msg ''decoding plugin'' \<or> str_includes msg ''bad seek''
      then heic_not_supported
      else ''Image processing failed: '' @ or_else msg ''Unknown error'')"

text \<open>
  Lines 39 to 79, the \<^verbatim>\<open>try\<close> block: the detected format decides the route. Both the
  sub-decoder and the sharp call after it are inside the inner \<^verbatim>\<open>try\<close>, whose
  \<^verbatim>\<open>catch\<close> rewraps the message.
\<close>

definition detect_and_decode :: "env \<Rightarrow> uint8Array \<Rightarrow> uint8Array logged" where
  "detect_and_decode E imageBuffer =
     and_then (sharp_metadata_call E imageBuffer)
       (\<lambda>md. if md_format md = Some ''heic'' \<or> md_format md = Some ''heif''
             then rethrow (and_then (heicConvert_call E imageBuffer)
                             (\<lambda>jpegBuffer. sharp_decode_call E jpegBuffer))
                    heic_failed
             else sharp_decode_call E imageBuffer)"

text \<open>Lines 39 to 99: the \<^verbatim>\<open>try\<close> block under the outer \<^verbatim>\<open>catch (sharpError)\<close>.\<close>

definition normalize_image :: "env \<Rightarrow> uint8Array \<Rightarrow> uint8Array logged" where
  "normalize_image E imageBuffer = rethrow (detect_and_decode E imageBuffer) classify_sharp_error"

text \<open>\<^verbatim>\<open>imageMetadata.width || 2480\<close>: \<^verbatim>\<open>undefined\<close> and 0 are falsy.\<close>

definition or_default :: "nat option \<Rightarrow> nat \<Rightarrow> nat" where
  "or_default v dflt = (case v of None \<Rightarrow> dflt | Some n \<Rightarrow> if n = 0 then dflt else n)"

text \<open>
  The file system is a map from paths to contents: \<^verbatim>\<open>readFileSync\<close> and \<^verbatim>\<open>unlinkSync\<close>
  throw on a missing path, \<^verbatim>\<open>writeFileSync\<close> succeeds. Failures of the disk itself are
  outside the model.
\<close>

type_synonym fileSystem = "string \<rightharpoonup> uint8Array"

definition readFileSync :: "fileSystem \<Rightarrow> string \<Rightarrow> string + uint8Array" where
  "readFileSync fs p =
     (case fs p of
        None \<Rightarrow> Inl (''ENOENT: no such file or directory, open '' @ [CHR 0x27] @ p @ [CHR 0x27])
      | Some buf \<Rightarrow> Inr buf)"

definition unlinkSync :: "fileSystem \<Rightarrow> string \<Rightarrow> string + fileSystem" where
  "unlinkSync fs p =
     (case fs p of
        None \<Rightarrow> Inl (''ENOENT: no such file or directory, unlink '' @ [CHR 0x27] @ p @ [CHR 0x27])
      | Some buf \<Rightarrow> Inr (fs(p := None)))"

text \<open>
  Lines 101 to 203: the dimensions of the processed image, the layout, the pdfkit
  document and the write of the PDF file.
\<close>

definition compose_and_write ::
  "env \<Rightarrow> fileSystem \<Rightarrow> string \<Rightarrow> uint8Array \<Rightarrow> metadata \<Rightarrow> string + string \<times> fileSystem" where
  "compose_and_write E fs originalName processedImage imageMetadata =
     (let imageWidth = or_default (md_width imageMetadata) 2480;
          imageHeight = or_default (md_height imageMetadata) 3508;
          pdfFileName = basename_without_ext E originalName @ ''-'' @ date_now E @ ''.pdf'';
          pdfPath' = path_join PDF_DIR pdfFileName;
          l = server_layout imageWidth imageHeight
      in (case pdfkit E processedImage (drawX l, drawY l, scaledWidth l, scaledHeight l) of
            ImageThrows msg \<Rightarrow> Inl (''Failed to add image to PDF: '' @ msg)
          | DocTimeout \<Rightarrow> Inl ''PDF creation timeout after 10 seconds''
          | DocError msg \<Rightarrow> Inl msg
          | DocEnd pdfBuffer \<Rightarrow>
              Inr (''/uploads/pdfs/'' @ pdfFileName, fs(pdfPath' := Some pdfBuffer))))"

text \<open>Lines 101 to 203 on the processed image: its metadata, then the PDF.\<close>

definition measure_and_compose ::
  "env \<Rightarrow> fileSystem \<Rightarrow> string \<Rightarrow> uint8Array \<Rightarrow> (string \<times> fileSystem) logged" where
  "measure_and_compose E fs originalName processedImage =
     and_then (sharp_metadata_call E processedImage)
       (\<lambda>imageMetadata.
          ([], compose_and_write E fs originalName processedImage imageMetadata))"

text \<open>
  Lines 33 to 203 inside the outermost \<^verbatim>\<open>try\<close>. The result is the call log and either
  the message thrown or the returned path with the file system after the PDF is written.
\<close>

definition convertImageToPDF_body ::
  "env \<Rightarrow> fileSystem \<Rightarrow> string \<Rightarrow> string \<Rightarrow> (string \<times> fileSystem) logged" where
  "convertImageToPDF_body E fs filePath originalName =
     (case readFileSync fs filePath of
        Inl msg \<Rightarrow> ([], Inl msg)
      | Inr imageBuffer \<Rightarrow>
          and_then (normalize_image E imageBuffer)
            (\<lambda>processedImage. measure_and_compose E fs originalName processedImage))"

text \<open>Lines 204 to 212, the outermost \<^verbatim>\<open>catch\<close>.\<close>

definition conversion_failed :: "string \<Rightarrow> string" where
  "conversion_failed msg = ''Failed to convert image to PDF: '' @ or_else msg ''Unknown error''"

definition convertImageToPDF ::
  "env \<Rightarrow> fileSystem \<Rightarrow> string \<Rightarrow> string \<Rightarrow> (string \<times> fileSystem) logged" where
  "convertImageToPDF E fs filePath originalName =
     rethrow (convertImageToPDF_body E fs filePath originalName) conversion_failed"

definition convertDocumentToPDF ::
  "env \<Rightarrow> fileSystem \<Rightarrow> string \<Rightarrow> string \<Rightarrow> string \<Rightarrow> (string \<times> fileSystem) logged" where
  "convertDocumentToPDF E fs filePath originalName mimeType =
     (if startsWith mimeType ''image/'' then convertImageToPDF E fs filePath originalName
      else ([], Inl (''Unsupported file type: '' @ mimeType)))"

definition getSupportedMimeTypes :: "string list" where
  "getSupportedMimeTypes =
     [''image/jpeg'', ''image/jpg'', ''image/png'', ''image/gif'', ''image/webp'',
      ''image/heic'', ''image/heif'']"

section \<open>Server: the PDF controller\<close>

text \<open>
  The controller of \<^verbatim>\<open>/api/pdf\<close>. A row of the table \<^verbatim>\<open>FileConversion\<close> is a record,
  the table a map from ids to rows. The three timestamps of a row are left out: the
  handlers only copy them into replies. \<open>method_used\<close> is the column \<^verbatim>\<open>method\<close>.
  Prisma's \<^verbatim>\<open>delete\<close> fails with code P2025 on a missing row and \<^verbatim>\<open>create\<close> with
  P2002 on an id in use; failures of the database connection are outside the model.
\<close>

record fileConversion =
  userId :: string
  originalFile :: string
  fileType :: string
  pdfPath :: string
  method_used :: string

type_synonym conversionTable = "string \<rightharpoonup> fileConversion"

record serverState =
  db :: conversionTable
  files :: fileSystem

definition prisma_delete :: "conversionTable \<Rightarrow> string \<Rightarrow> string + conversionTable" where
  "prisma_delete table conversionId =
     (case table conversionId of None \<Rightarrow> Inl ''P2025''
      | Some row \<Rightarrow> Inr (table(conversionId := None)))"

definition prisma_create ::
  "conversionTable \<Rightarrow> string \<Rightarrow> fileConversion \<Rightarrow> string + conversionTable" where
  "prisma_create table conversionId row =
     (case table conversionId of None \<Rightarrow> Inr (table(conversionId := Some row))
      | Some other \<Rightarrow> Inl ''Unique constraint failed on the fields: (`id`)'')"

text \<open>\<^verbatim>\<open>req.file\<close>, as multer leaves it.\<close>

record upload =
  originalname :: string
  mimetype :: string
  path :: string

text \<open>
  A JSON reply: the status and the body. Of an error body only the \<^verbatim>\<open>error\<close> field is
  kept; \<open>Converted\<close> carries the id and the fields of the new row.
\<close>

datatype body = Error string | Message string | Converted string fileConversion

datatype response = Json nat body

fun status :: "response \<Rightarrow> nat" where
  "status (Json code b) = code"

text \<open>\<^verbatim>\<open>convertToPDF\<close>, POST \<^verbatim>\<open>/api/pdf/convert\<close>; \<open>user\<close> is \<^verbatim>\<open>req.user?.userId\<close>.\<close>

definition store_conversion ::
  "env \<Rightarrow> string \<Rightarrow> upload \<Rightarrow> conversionTable \<Rightarrow> string \<times> fileSystem \<Rightarrow> response \<times> serverState" where
  "store_conversion E uid f table converted =
     (let pdfPath' = fst converted;
          fs1 = snd converted;
          fs2 = (case unlinkSync fs1 (path f) of Inl cleanupError \<Rightarrow> fs1 | Inr fs' \<Rightarrow> fs');
          conversion = \<lparr>userId = uid, originalFile = originalname f, fileType = mimetype f,
                         pdfPath = pdfPath', method_used = ''server''\<rparr>
      in (case prisma_create table (new_id E) conversion of
            Inl msg \<Rightarrow>
              (Json 500 (Error (or_else msg ''Internal server error'')),
               \<lparr>db = table, files = fs2\<rparr>)
          | Inr table' \<Rightarrow>
              (Json 200 (Converted (new_id E) conversion), \<lparr>db = table', files = fs2\<rparr>)))"

definition convertToPDF ::
  "env \<Rightarrow> string option \<Rightarrow> upload option \<Rightarrow> serverState \<Rightarrow> response \<times> serverState" where
  "convertToPDF E user file st =
     (case user of
        None \<Rightarrow> (Json 401 (Error ''Unauthorized''), st)
      | Some uid \<Rightarrow>
          (case file of
             None \<Rightarrow> (Json 400 (Error ''No file uploaded''), st)
           | Some f \<Rightarrow>
               if mimetype f \<notin> set getSupportedMimeTypes then
                 (Json 400 (Error ''Unsupported file type''), st)
               else
                 (case snd (convertDocumentToPDF E (files st) (path f) (originalname f)
                              (mimetype f)) of
                    Inl msg \<Rightarrow> (Json 500 (Error (or_else msg ''Internal server error'')), st)
                  | Inr converted \<Rightarrow> store_conversion E uid f (db st) converted)))"

text \<open>
  \<^verbatim>\<open>getPDF\<close>, GET \<^verbatim>\<open>/api/pdf/:id\<close>. Up to line 215 the handler either replies with JSON
  or sets the headers of the PDF; from line 217 it pipes the file into the response and
  registers handlers. \<open>download\<close> is the state those handlers share.
\<close>

record download =
  conversionId :: string
  fullPath :: string
  filename :: string
  contentLength :: nat
  statusCode :: nat
  headersSent :: bool
  streamEnded :: bool
  hasStreamError :: bool
  errorReply :: "response option"

definition getPDF_begin :: "string option \<Rightarrow> string \<Rightarrow> serverState \<Rightarrow> response + download" where
  "getPDF_begin user cid st =
     (case user of
        None \<Rightarrow> Inl (Json 401 (Error ''Unauthorized''))
      | Some uid \<Rightarrow>
          (case db st cid of
             None \<Rightarrow> Inl (Json 404 (Error ''Conversion not found''))
           | Some conversion \<Rightarrow>
               if userId conversion \<noteq> uid then Inl (Json 403 (Error ''Forbidden''))
               else
                 (let relativePath = remove_uploads_prefix (pdfPath conversion);
                      fullPath' = path_join UPLOAD_DIR relativePath
                  in (case files st fullPath' of
                        None \<Rightarrow> Inl (Json 404 (Error ''PDF file not found''))
                      | Some content \<Rightarrow>
                          if length content < 100 then
                            Inl (Json 500 (Error ''PDF file is corrupt or empty''))
                          else
                            Inr \<lparr>conversionId = cid, fullPath = fullPath',
                                 filename = remove_extension (originalFile conversion) @ ''.pdf'',
                                 contentLength = length content, statusCode = 200,
                                 headersSent = False, streamEnded = False,
                                 hasStreamError = False, errorReply = None\<rparr>))))"

text \<open>
  What the runtime can deliver while the file is piped: a chunk written to the response
  (which sends the headers), the stream's \<^verbatim>\<open>'error'\<close> and \<^verbatim>\<open>'end'\<close>, the response's
  \<^verbatim>\<open>'finish'\<close> and \<^verbatim>\<open>'close'\<close>. A client that disconnects gives \<^verbatim>\<open>'close'\<close> without
  \<^verbatim>\<open>'finish'\<close>.
\<close>

datatype streamEvent = StreamData | StreamError | StreamEnd | ResFinish | ResClose

text \<open>Lines 243 to 258: the clean-up inside the \<^verbatim>\<open>'finish'\<close> handler.\<close>

definition delete_record :: "string \<Rightarrow> serverState \<Rightarrow> serverState" where
  "delete_record cid st =
     (case prisma_delete (db st) cid of
        Inl deleteError \<Rightarrow> st
      | Inr table' \<Rightarrow> st\<lparr>db := table'\<rparr>)"

definition cleanup_after_delivery :: "download \<Rightarrow> serverState \<Rightarrow> serverState" where
  "cleanup_after_delivery d st =
     (if files st (fullPath d) \<noteq> None then
        (case unlinkSync (files st) (fullPath d) of
           Inl cleanupError \<Rightarrow> st
         | Inr fs' \<Rightarrow> delete_record (conversionId d) (st\<lparr>files := fs'\<rparr>))
      else delete_record (conversionId d) st)"

text \<open>The handlers of lines 223 to 273, one event at a time.\<close>

fun handle :: "streamEvent \<Rightarrow> download \<times> serverState \<Rightarrow> download \<times> serverState" where
  "handle StreamData (d, st) = (d\<lparr>headersSent := True\<rparr>, st)"
| "handle StreamError (d, st) =
     (if \<not> headersSent d then
        (d\<lparr>hasStreamError := True, statusCode := 500, headersSent := True,
            errorReply := Some (Json 500 (Error ''Error reading PDF file''))\<rparr>, st)
      else (d\<lparr>hasStreamError := True\<rparr>, st))"
| "handle StreamEnd (d, st) = (d\<lparr>streamEnded := True\<rparr>, st)"
| "handle ResFinish (d, st) =
     (if statusCode d = 200 \<and> streamEnded d \<and> \<not> hasStreamError d
      then (d, cleanup_after_delivery d st)
      else (d, st))"
| "handle ResClose (d, st) = (d, st)"

definition deliver :: "streamEvent list \<Rightarrow> download \<times> serverState \<Rightarrow> download \<times> serverState" where
  "deliver events start = fold handle events start"

definition getPDF ::
  "string option \<Rightarrow> string \<Rightarrow> serverState \<Rightarrow> streamEvent list \<Rightarrow>
   (response + download) \<times> serverState" where
  "getPDF user cid st events =
     (case getPDF_begin user cid st of
        Inl reply \<Rightarrow> (Inl reply, st)
      | Inr d \<Rightarrow> (Inr (fst (deliver events (d, st))), snd (deliver events (d, st))))"

text \<open>\<^verbatim>\<open>deleteConversion\<close>, DELETE \<^verbatim>\<open>/api/pdf/:id\<close>.\<close>

definition deleteConversion :: "string option \<Rightarrow> string \<Rightarrow> serverState \<Rightarrow> response \<times> serverState" where
  "deleteConversion user cid st =
     (case user of
        None \<Rightarrow> (Json 401 (Error ''Unauthorized''), st)
      | Some uid \<Rightarrow>
          (case db st cid of
             None \<Rightarrow> (Json 200 (Message ''Conversion already deleted or not found''), st)
           | Some conversion \<Rightarrow>
               if userId conversion \<noteq> uid then (Json 403 (Error ''Forbidden''), st)
               else
                 (let pdfPath' = path_join UPLOAD_DIR
                                   (remove_first (pdfPath conversion) ''/uploads/'');
                      fs1 = (if files st pdfPath' \<noteq> None then
                               (case unlinkSync (files st) pdfPath' of
                                  Inl fileError \<Rightarrow> files st
                                | Inr fs' \<Rightarrow> fs')
                             else files st)
                  in (case prisma_delete (db st) cid of
                        Inl code \<Rightarrow>
                          if code = ''P2025'' then
                            (Json 200 (Message ''Conversion deleted successfully''),
                             \<lparr>db = db st, files = fs1\<rparr>)
                          else
                            (Json 500 (Error ''Internal server error''),
                             \<lparr>db = db st, files = fs1\<rparr>)
                      | Inr table' \<Rightarrow>
                          (Json 200 (Message ''Conversion deleted successfully''),
                           \<lparr>db = table', files = fs1\<rparr>)))))"

text \<open>
  A download completes when the response finishes after the stream has ended and
  without a stream error before it: some event is \<open>ResFinish\<close>, with \<open>StreamEnd\<close> and no
  \<open>StreamError\<close> among the events before it.
\<close>

definition completes :: "streamEvent list \<Rightarrow> bool" where
  "completes events \<longleftrightarrow>
     (\<exists>n \<in> {..<length events}.
        events ! n = ResFinish \<and> StreamEnd \<in> set (take n events) \<and>
        StreamError \<notin> set (take n events))"

text \<open>
  The file a row points to, as \<open>getPDF_begin\<close> computes it, and the condition under which
  \<open>getPDF_begin\<close> answers with status 200 and opens the stream: the caller owns the row
  and the file exists with at least 100 bytes.
\<close>

definition stored_file :: "fileConversion \<Rightarrow> string" where
  "stored_file c = path_join UPLOAD_DIR (remove_uploads_prefix (pdfPath c))"

definition accepted :: "string option \<Rightarrow> fileConversion \<Rightarrow> serverState \<Rightarrow> bool" where
  "accepted user c st \<longleftrightarrow>
     user = Some (userId c) \<and>
     (case files st (stored_file c) of None \<Rightarrow> False | Some content \<Rightarrow> 100 \<le> length content)"

section \<open>Mobile client: the device-side conversion\<close>






section \<open>Example inputs\<close>

text \<open>
  Library behaviours and states at which the theorems below are evaluated. In each
  environment sharp and the other libraries answer for the buffers named and reject
  every other buffer. The bytes that a library returns (a JPEG, a PDF) are stand-ins for
  its real output, which no property below reads.
\<close>

text \<open>
  \<^verbatim>\<open>path.basename(name, path.extname(name))\<close> on a name without trailing slashes: the
  extension starts at the last dot of the last path component, unless that dot is the
  component's first character.
\<close>

definition node_extname :: "string \<Rightarrow> string" where
  "node_extname base =
     (let ext = takeWhile (\<lambda>ch. ch \<noteq> CHR ''.'') (rev base);
          rest = dropWhile (\<lambda>ch. ch \<noteq> CHR ''.'') (rev base)
      in case rest of
           [] \<Rightarrow> []
         | dot # stem \<Rightarrow> if stem = [] \<or> base = ''..'' then [] else CHR ''.'' # rev ext)"

definition node_basename_without_ext :: "string \<Rightarrow> string" where
  "node_basename_without_ext name =
     (let base = rev (takeWhile (\<lambda>ch. ch \<noteq> CHR ''/'') (rev name));
          ext = node_extname base
      in if ext = [] \<or> ext = base then base else take (length base - length ext) base)"

definition sample_metadata :: "string \<Rightarrow> nat \<Rightarrow> nat \<Rightarrow> metadata" where
  "sample_metadata fmt w h = \<lparr>md_format = Some fmt, md_width = Some w, md_height = Some h\<rparr>"

definition sample_jpeg :: uint8Array where
  "sample_jpeg = [0xFF, 0xD8, 0xFF, 0xE0, 0xFF, 0xD9]"

definition sample_pdf :: uint8Array where
  "sample_pdf = replicate 200 0x25"

text \<open>
  A server with one image: sharp reports \<open>fmt\<close>, \<open>w\<close> and \<open>h\<close> for \<open>uploaded\<close>; when the
  format is HEIC or HEIF, heic-convert turns \<open>uploaded\<close> into \<open>transcoded\<close> and sharp, built
  without an HEVC decoder, cannot decode \<open>uploaded\<close> itself; sharp's resize and re-encoding
  gives \<open>sample_jpeg\<close> with the same dimensions.
\<close>

definition one_image_env :: "uint8Array \<Rightarrow> string \<Rightarrow> nat \<Rightarrow> nat \<Rightarrow> uint8Array \<Rightarrow> env" where
  "one_image_env uploaded fmt w h transcoded =
     \<lparr>sharp_metadata =
        (\<lambda>buf. if buf = uploaded then Inr (sample_metadata fmt w h)
               else if buf = sample_jpeg then Inr (sample_metadata ''jpeg'' w h)
               else Inl ''Input buffer contains unsupported image format''),
      heicConvert =
        (\<lambda>buf. if buf = uploaded \<and> (fmt = ''heic'' \<or> fmt = ''heif'') then Inr transcoded
               else Inl ''input buffer is not a HEIC image''),
      sharp_resize_jpeg =
        (\<lambda>buf. if buf = uploaded \<and> (fmt = ''heic'' \<or> fmt = ''heif'')
               then Inl ''heif: Unsupported feature: Unsupported codec (4.3000)''
               else if buf = uploaded \<or> buf = transcoded then Inr sample_jpeg
               else Inl ''Input buffer contains unsupported image format''),
      pdfkit = (\<lambda>img place. DocEnd sample_pdf),
      basename_without_ext = node_basename_without_ext,
      date_now = ''1768164557000'',
      new_id = ''c2''\<rparr>"

text \<open>A server whose sharp rejects every buffer.\<close>

definition corrupt_env :: env where
  "corrupt_env =
     \<lparr>sharp_metadata = (\<lambda>buf. Inl ''Input buffer contains unsupported image format''),
      heicConvert = (\<lambda>buf. Inl ''input buffer is not a HEIC image''),
      sharp_resize_jpeg = (\<lambda>buf. Inl ''Input buffer contains unsupported image format''),
      pdfkit = (\<lambda>img place. DocEnd sample_pdf),
      basename_without_ext = node_basename_without_ext,
      date_now = ''1768164557000'',
      new_id = ''c2''\<rparr>"



definition sample_upload :: upload where
  "sample_upload =
     \<lparr>originalname = ''photo.jpg'', mimetype = ''image/jpeg'',
      path = ''./uploads/photo-1768164556000-42.jpg''\<rparr>"

definition sample_row :: fileConversion where
  "sample_row =
     \<lparr>userId = ''alice'', originalFile = ''photo.jpg'', fileType = ''image/jpeg'',
      pdfPath = ''/uploads/pdfs/photo-1768164557000.pdf'', method_used = ''server''\<rparr>"

definition sample_state :: serverState where
  "sample_state =
     \<lparr>db = [''c1'' \<mapsto> sample_row],
      files = [''./uploads/pdfs/photo-1768164557000.pdf'' \<mapsto> replicate 200 0x25]\<rparr>"

text \<open>The first bytes of a HEIC file, and a state in which they have just been uploaded.\<close>

definition heic_bytes :: uint8Array where
  "heic_bytes = [0x00, 0x00, 0x00, 0x18, 0x66, 0x74, 0x79, 0x70, 0x68, 0x65, 0x69, 0x63]"

definition upload_state :: serverState where
  "upload_state =
     \<lparr>db = Map.empty, files = [''./uploads/photo-1768164556000-42.jpg'' \<mapsto> heic_bytes]\<rparr>"

text \<open>
  A HEIC photograph that the picker labelled \<^verbatim>\<open>image/jpeg\<close>. \<open>heic_photo\<close> stands for the
  bytes of the whole file, of which only the file-type box is written out here, and
  \<open>heic_as_jpeg\<close> for what heic-convert makes of it.
\<close>

definition heic_photo :: uint8Array where
  "heic_photo =
     [0x00, 0x00, 0x00, 0x18, 0x66, 0x74, 0x79, 0x70, 0x68, 0x65, 0x69, 0x63,
      0x00, 0x00, 0x00, 0x00, 0x6D, 0x69, 0x66, 0x31, 0x68, 0x65, 0x69, 0x63]"

definition heic_as_jpeg :: uint8Array where
  "heic_as_jpeg = [0xFF, 0xD8, 0xFF, 0xE1, 0xFF, 0xD9]"

definition heic_env :: env where
  "heic_env = one_image_env heic_photo ''heif'' 1000 1000 heic_as_jpeg"

definition mislabelled_upload :: upload where
  "mislabelled_upload =
     \<lparr>originalname = ''IMG_0042.jpg'', mimetype = ''image/jpeg'',
      path = ''./uploads/IMG_0042-1768164556000-17.jpg''\<rparr>"

definition heic_on_server :: fileSystem where
  "heic_on_server = [''./uploads/IMG_0042-1768164556000-17.jpg'' \<mapsto> heic_photo]"






section \<open>Properties\<close>

subsection \<open>The compositor\<close>

lemma client_scale_formula:
  "scale (client_layout w h) = min (pageWidth / real w) (min (pageHeight / real h) 1)"
  by (simp add: client_layout_def Let_def)

lemma client_scale_le_1: "scale (client_layout w h) \<le> 1"
  by (simp add: client_scale_formula)

lemma server_scale_formula:
  "scale (server_layout w h) = min (pageWidth / real w) (pageHeight / real h)"
  by (simp add: server_layout_def Let_def)

text \<open>The server enlarges exactly the images that are smaller than the page on both axes.\<close>

lemma server_scale_gt_1_iff:
  assumes "0 < w" and "0 < h"
  shows "1 < scale (server_layout w h) \<longleftrightarrow> w < 595 \<and> h < 842"
  using assms by (simp add: server_scale_formula pageWidth_def pageHeight_def)

text \<open>
  C1. The scale is \<open>min (pageWidth / width) (pageHeight / height) 1\<close> on the device
  (\<open>client_scale_formula\<close>), but the server leaves the bound 1 out: a 100 by 100 image,
  which the server's resize step does not enlarge, is drawn at scale 5.95 there and at
  scale 1 on the device.
\<close>

theorem server_scale_exceeds_1:
  "scale (server_layout 100 100) = 119 / 20 \<and>
   scale (server_layout 100 100) \<noteq> min (pageWidth / 100) (min (pageHeight / 100) 1) \<and>
   \<not> scale (server_layout 100 100) \<le> 1 \<and>
   scale (client_layout 100 100) = 1"
  by (simp add: server_scale_formula client_scale_formula pageWidth_def pageHeight_def)



subsection \<open>The conversion path on the device\<close>

text \<open>
  C9. \<open>canConvertClientSide\<close> is false for every MIME type, so the conversion screen
  never offers the device-side conversion and offers the server for every selected file.
\<close>

theorem canConvertClientSide_never:
  "\<not> canConvertClientSide mimeType \<and>
   DEVICE \<notin> set (convertButtons selected) \<and>
   convertButtons (Some f) = [SERVER]"
  by (simp add: canConvertClientSide_def canConvertClient_def convertButtons_def
      split: option.split)

subsection \<open>The base64 codec\<close>

lemma replicate_3: "replicate 3 (0 :: 8 word) = [0, 0, 0]"
  by (simp add: numeral_3_eq_3)

lemma lookup_values:
  "lookup CHR ''T'' = 19" "lookup CHR ''Q'' = 16" "lookup CHR ''A'' = 0"
  by (simp_all add: lookup_def chars_decode_def upt_rec)

text \<open>
  C10. The round trip fails on a one-byte array. The encoder's padding tests
  \<^verbatim>\<open>i - 2 < bytes.length\<close> and \<^verbatim>\<open>i - 1 < bytes.length\<close> are always true, since \<^verbatim>\<open>i\<close> never
  passes \<^verbatim>\<open>bytes.length\<close>: it writes \<open>A\<close> where the padding \<open>=\<close> belongs, and the
  decoder reads the two \<open>A\<close> as data and returns two extra zero bytes.
\<close>

theorem base64_round_trip_one_byte:
  "uint8ArrayToBase64 [77] = ''TQAA'' \<and>
   base64ToUint8Array (uint8ArrayToBase64 [77]) = [77, 0, 0] \<and>
   base64ToUint8Array (uint8ArrayToBase64 [77]) \<noteq> [77]"
proof -
  have enc: "uint8ArrayToBase64 [77] = ''TQAA''"
    by (simp add: uint8ArrayToBase64_def charAt_def chars_encode_def Let_def)
  have dec: "base64ToUint8Array ''TQAA'' = [77, 0, 0]"
    by (simp add: base64ToUint8Array_def base64_char_def charCode_def encoded_at_def
        store_def lookup_values Let_def replicate_3)
  show ?thesis
    by (simp add: enc dec)
qed

lemma chars_encode_alphabet: "\<forall>ch \<in> set chars_encode. base64_char ch"
  by (simp add: chars_encode_def base64_char_def charCode_def)

lemma length_chars_encode: "length chars_encode = 64"
  by (simp add: chars_encode_def)

lemma and_63_less: "(n :: nat) AND 63 < 64"
proof -
  have "n AND 63 = n mod 2 ^ 6"
    using take_bit_eq_mask [of 6 n] by (simp add: take_bit_eq_mod mask_eq_exp_minus_1)
  then show ?thesis by simp
qed

lemma charAt_sextet:
  "length (charAt chars_encode (n AND 63)) = 1"
  "\<forall>ch \<in> set (charAt chars_encode (n AND 63)). base64_char ch"
  using and_63_less [of n] chars_encode_alphabet
  by (simp_all add: charAt_def length_chars_encode)

lemma div3_step:
  assumes "Suc (Suc i) < n"
  shows "4 + 4 * (Suc (Suc (n - Suc (Suc (Suc i)))) div 3) = 4 * (Suc (Suc (n - i)) div (3::nat))"
proof -
  obtain m where m: "n = m + Suc (Suc (Suc i))"
    using assms by (metis add.commute less_iff_Suc_add add_Suc_right add_Suc)
  have "Suc (Suc (n - i)) = Suc (Suc m) + 3"
    using m by simp
  then have "Suc (Suc (n - i)) div 3 = Suc (Suc m) div 3 + 1"
    by (simp only: div_add_self2)
  then show ?thesis
    using m by simp
qed

lemma encode_loop_length:
  "i \<le> length bytes \<Longrightarrow>
   length (encode_loop bytes i result) = length result + 4 * ((length bytes - i + 2) div 3)"
proof (induction bytes i result rule: encode_loop.induct)
  case (1 bytes i result)
  show ?case
  proof (cases "i < length bytes")
    case False
    with "1.prems" show ?thesis by (subst encode_loop.simps) simp
  next
    case True
    consider (one) "i + 1 = length bytes" | (two) "i + 2 = length bytes" | (more) "i + 3 \<le> length bytes"
      using True by linarith
    then show ?thesis
    proof cases
      case one
      then show ?thesis
        using "1.IH" [OF True refl refl refl refl refl refl refl refl refl refl refl]
        by (subst encode_loop.simps) (simp add: Let_def charAt_sextet del: encode_loop.simps)
    next
      case two
      then show ?thesis
        using "1.IH" [OF True refl refl refl refl refl refl refl refl refl refl refl]
        by (subst encode_loop.simps) (simp add: Let_def charAt_sextet del: encode_loop.simps)
    next
      case more
      then show ?thesis
        using "1.IH" [OF True refl refl refl refl refl refl refl refl refl refl refl]
          div3_step [of i "length bytes"]
        by (subst encode_loop.simps) (simp add: Let_def charAt_sextet del: encode_loop.simps)
    qed
  qed
qed


lemma charAt_alphabet: "set (charAt chars_encode (n AND 63)) \<subseteq> Collect base64_char"
  using charAt_sextet(2) [of n] by blast

lemma encode_loop_alphabet:
  "set result \<subseteq> Collect base64_char \<Longrightarrow>
   set (encode_loop bytes i result) \<subseteq> Collect base64_char"
proof (induction bytes i result rule: encode_loop.induct)
  case (1 bytes i result)
  show ?case
  proof (cases "i < length bytes")
    case False
    with "1.prems" show ?thesis by (subst encode_loop.simps) simp
  next
    case True
    consider (one) "i + 1 = length bytes" | (two) "i + 2 = length bytes" | (more) "i + 3 \<le> length bytes"
      using True by linarith
    then show ?thesis
    proof cases
      case one
      then show ?thesis
        using "1.IH" [OF True refl refl refl refl refl refl refl refl refl refl refl] "1.prems"
        by (subst encode_loop.simps)
           (simp add: Let_def charAt_alphabet del: encode_loop.simps)
    next
      case two
      then show ?thesis
        using "1.IH" [OF True refl refl refl refl refl refl refl refl refl refl refl] "1.prems"
        by (subst encode_loop.simps)
           (simp add: Let_def charAt_alphabet del: encode_loop.simps)
    next
      case more
      then show ?thesis
        using "1.IH" [OF True refl refl refl refl refl refl refl refl refl refl refl] "1.prems"
        by (subst encode_loop.simps)
           (simp add: Let_def charAt_alphabet del: encode_loop.simps)
    qed
  qed
qed

lemma length_store: "length (store bytes p v) = length bytes"
  by (simp add: store_def)

lemma decode_loop_length: "length (decode_loop base64Data i p bytes) = length bytes"
proof (induction base64Data i p bytes rule: decode_loop.induct)
  case (1 base64Data i p bytes)
  show ?case
  proof (cases "i < length base64Data")
    case False
    then show ?thesis by (subst decode_loop.simps) simp
  next
    case True
    show ?thesis
      using "1.IH" [OF True refl refl refl refl refl refl refl]
      by (subst decode_loop.simps) (simp add: True Let_def length_store del: decode_loop.simps)
  qed
qed

text \<open>
  In general the encoder's output has no padding and four characters for every started
  group of three bytes, so the decoder returns three bytes for every started group: the
  round trip fails on every array whose length is not a multiple of 3.
\<close>

lemma round_trip_length:
  "length (base64ToUint8Array (uint8ArrayToBase64 b)) = 3 * ((length b + 2) div 3)"
proof -
  have "filter base64_char (uint8ArrayToBase64 b) = uint8ArrayToBase64 b"
    using encode_loop_alphabet [of "[]" b 0]
    by (auto simp add: uint8ArrayToBase64_def filter_id_conv)
  moreover have "length (uint8ArrayToBase64 b) = 4 * ((length b + 2) div 3)"
    using encode_loop_length [of 0 b "[]"] by (simp add: uint8ArrayToBase64_def)
  ultimately show ?thesis
    by (simp add: base64ToUint8Array_def Let_def decode_loop_length del: decode_loop.simps)
qed

lemma round_trip_fails:
  assumes "length b mod 3 \<noteq> 0"
  shows "base64ToUint8Array (uint8ArrayToBase64 b) \<noteq> b"
proof
  assume "base64ToUint8Array (uint8ArrayToBase64 b) = b"
  then have "length b = 3 * ((length b + 2) div 3)"
    using round_trip_length [of b] by simp
  then have "length b mod 3 = 0"
    by (metis mod_mult_self1_is_0)
  with assms show False by simp
qed

text \<open>
  On arrays whose length is a multiple of 3 the round trip does hold: the table inverts
  the alphabet, the decoder's three bytes are the encoder's three bytes, and the two loops
  go through the groups in step.
\<close>

lemma lookup_chars_all: "list_all (\<lambda>k. lookup (chars_encode ! k) = k) [0..<64]"
  by (simp add: lookup_def chars_decode_def chars_encode_def upt_rec)

lemma lookup_chars: "k < 64 \<Longrightarrow> lookup (chars_encode ! k) = k"
  using lookup_chars_all by (simp add: list_all_iff)

lemma n63: "(63::nat) = mask 6" by (simp add: mask_eq_exp_minus_1)
lemma n15: "(15::nat) = mask 4" by (simp add: mask_eq_exp_minus_1)
lemma n3: "(3::nat) = mask 2" by (simp add: mask_eq_exp_minus_1)

lemma shift_back:
  "2 \<le> n \<Longrightarrow> Suc (Suc (n - 2)) = n"
  "4 \<le> n \<Longrightarrow> 4 + (n - 4) = n"
  "6 \<le> n \<Longrightarrow> 6 + (n - 6) = n"
  by simp_all

lemma byte1:
  fixes a b c :: "8 word"
  defines "bm \<equiv> push_bit 16 (unat a) OR push_bit 8 (unat b) OR unat c"
  shows "word_of_nat (push_bit 2 (drop_bit 18 bm AND 63) OR drop_bit 4 (drop_bit 12 bm AND 63)) = a"
  unfolding bm_def n63
  apply (rule bit_word_eqI)
  apply (auto simp add: bit_simps shift_back not_less dest: bit_imp_le_length)
  done

lemma byte2:
  fixes a b c :: "8 word"
  defines "bm \<equiv> push_bit 16 (unat a) OR push_bit 8 (unat b) OR unat c"
  shows "word_of_nat (push_bit 4 ((drop_bit 12 bm AND 63) AND 15) OR drop_bit 2 (drop_bit 6 bm AND 63)) = b"
  unfolding bm_def n63 n15
  apply (rule bit_word_eqI)
  apply (auto simp add: bit_simps shift_back not_less dest: bit_imp_le_length)
  done

lemma byte3:
  fixes a b c :: "8 word"
  defines "bm \<equiv> push_bit 16 (unat a) OR push_bit 8 (unat b) OR unat c"
  shows "word_of_nat (push_bit 6 ((drop_bit 6 bm AND 63) AND 3) OR ((bm AND 63) AND 63)) = c"
  unfolding bm_def n63 n3
  apply (rule bit_word_eqI)
  apply (auto simp add: bit_simps shift_back not_less dest: bit_imp_le_length)
  done

lemma sextets_length: "length (sextets g) = 4"
  by (cases g) (simp add: sextets_def Let_def)

lemma sextets_less: "t < 4 \<Longrightarrow> sextets g ! t < 64"
  by (cases g) (auto simp add: sextets_def Let_def and_63_less nth_Cons' )

lemma sextets_set: "k \<in> set (sextets g) \<Longrightarrow> k < 64"
  by (cases g) (auto simp add: sextets_def Let_def and_63_less)

lemma decode_sextets:
  "[word_of_nat (push_bit 2 (sextets g ! 0) OR drop_bit 4 (sextets g ! 1)),
    word_of_nat (push_bit 4 (sextets g ! 1 AND 15) OR drop_bit 2 (sextets g ! 2)),
    word_of_nat (push_bit 6 (sextets g ! 2 AND 3) OR (sextets g ! 3 AND 63))] = group_bytes g"
proof (cases g)
  case (fields a b c)
  show ?thesis
    unfolding fields sextets_def group_bytes_def Let_def prod.case
    using byte1 [of a b c] byte2 [of a b c] byte3 [of a b c]
    by (simp only: nth_Cons_0 nth_Cons_Suc One_nat_def numeral_2_eq_2 numeral_3_eq_3)
qed


lemma encode_loop_group:
  "encode_loop (pre @ group_bytes g @ rest) (length pre) result =
   encode_loop (pre @ group_bytes g @ rest) (Suc (Suc (Suc (length pre)))) (result @ encode_group g)"
  by (cases g, subst encode_loop.simps)
     (simp add: Let_def charAt_def length_chars_encode and_63_less encode_group_def sextets_def
        group_bytes_def nth_append del: encode_loop.simps)

lemma encode_loop_groups:
  "encode_loop (pre @ concat (map group_bytes gs)) (length pre) result =
   result @ concat (map encode_group gs)"
proof (induction gs arbitrary: pre result)
  case Nil
  show ?case by (subst encode_loop.simps) simp
next
  case (Cons g gs)
  have "length (group_bytes g) = Suc (Suc (Suc 0))"
    by (cases g) (simp add: group_bytes_def)
  then show ?case
    using Cons.IH [of "pre @ group_bytes g" "result @ encode_group g"]
      encode_loop_group [of pre g "concat (map group_bytes gs)" result]
    by (simp del: encode_loop.simps)
qed

lemma encode_group_length: "length (encode_group g) = 4"
  by (simp add: encode_group_def sextets_length)

lemma encoded_at_group:
  assumes "t < 4"
  shows "encoded_at (spre @ encode_group g @ srest) (length spre + t) = sextets g ! t"
  using assms
  by (simp add: encoded_at_def nth_append encode_group_length encode_group_def sextets_length
      lookup_chars sextets_less)

lemma encoded_at_group_forms:
  "encoded_at (spre @ encode_group g @ srest) (length spre) = sextets g ! 0"
  "encoded_at (spre @ encode_group g @ srest) (Suc (length spre)) = sextets g ! 1"
  "encoded_at (spre @ encode_group g @ srest) (Suc (Suc (length spre))) = sextets g ! 2"
  "encoded_at (spre @ encode_group g @ srest) (Suc (Suc (Suc (length spre)))) = sextets g ! 3"
  "encoded_at (spre @ encode_group g @ srest) (length spre + 3) = sextets g ! 3"
  using encoded_at_group [of 0 spre g srest] encoded_at_group [of 1 spre g srest]
    encoded_at_group [of 2 spre g srest] encoded_at_group [of 3 spre g srest]
  by (simp_all add: numeral_3_eq_3)

lemma store_three:
  "store (store (store (bpre @ z1 # z2 # z3 # zs) (length bpre) v1) (Suc (length bpre)) v2)
     (Suc (Suc (length bpre))) v3 =
   bpre @ [word_of_nat v1, word_of_nat v2, word_of_nat v3] @ zs"
  by (simp add: store_def list_update_append)

lemma decode_loop_group:
  "decode_loop (spre @ encode_group g @ srest) (length spre) (length bpre)
     (bpre @ z1 # z2 # z3 # zs) =
   decode_loop (spre @ encode_group g @ srest) (length spre + 4) (length bpre + 3)
     (bpre @ group_bytes g @ zs)"
  using decode_sextets [of g, symmetric]
  by (subst decode_loop.simps)
     (simp add: Let_def encoded_at_group_forms store_three encode_group_length
        del: decode_loop.simps)


lemma decode_loop_groups:
  assumes "length zs = 3 * length gs"
  shows "decode_loop (spre @ concat (map encode_group gs)) (length spre) (length bpre) (bpre @ zs) =
         bpre @ concat (map group_bytes gs)"
  using assms
proof (induction gs arbitrary: spre bpre zs)
  case Nil
  then show ?case by (subst decode_loop.simps) simp
next
  case (Cons g gs)
  then obtain z1 z2 z3 zs' where zs: "zs = z1 # z2 # z3 # zs'" "length zs' = 3 * length gs"
    by (cases zs; cases "tl zs"; cases "tl (tl zs)") auto
  have len: "length (group_bytes g) = 3"
    by (cases g) (simp add: group_bytes_def)
  show ?case
    using Cons.IH [of zs' "spre @ encode_group g" "bpre @ group_bytes g"] zs
      decode_loop_group [of spre g "concat (map encode_group gs)" bpre z1 z2 z3 zs']
    by (simp add: encode_group_length len del: decode_loop.simps)
qed


lemma groups_exist:
  assumes "length b = 3 * n"
  shows "\<exists>gs. b = concat (map group_bytes gs)"
  using assms
proof (induction n arbitrary: b)
  case 0
  then show ?case by (intro exI [of _ "[]"]) simp
next
  case (Suc n)
  then obtain x y z rest where b: "b = x # y # z # rest" "length rest = 3 * n"
    by (cases b; cases "tl b"; cases "tl (tl b)") auto
  then obtain gs where "rest = concat (map group_bytes gs)"
    using Suc.IH by blast
  moreover have "group_bytes (x, y, z) = [x, y, z]"
    by (simp add: group_bytes_def)
  ultimately show ?case
    using b by (intro exI [of _ "(x, y, z) # gs"]) simp
qed

lemma concat_groups_length:
  "length (concat (map encode_group gs)) = 4 * length gs"
  by (induction gs) (simp_all add: encode_group_length)

lemma concat_groups_alphabet:
  "filter base64_char (concat (map encode_group gs)) = concat (map encode_group gs)"
proof -
  have "base64_char ch" if mem: "ch \<in> set (encode_group g)" for ch g
  proof -
    obtain k where "k \<in> set (sextets g)" "ch = chars_encode ! k"
      using mem by (auto simp add: encode_group_def)
    then show ?thesis
      using chars_encode_alphabet sextets_set [of k g] by (simp add: length_chars_encode)
  qed
  then show ?thesis
    by (auto simp add: filter_id_conv)
qed

lemma round_trip_groups:
  "base64ToUint8Array (uint8ArrayToBase64 (concat (map group_bytes gs))) =
   concat (map group_bytes gs)"
proof -
  have "uint8ArrayToBase64 (concat (map group_bytes gs)) = concat (map encode_group gs)"
    using encode_loop_groups [of "[]" gs "[]"] by (simp add: uint8ArrayToBase64_def)
  moreover have "decode_loop (concat (map encode_group gs)) 0 0 (replicate (3 * length gs) 0) =
      concat (map group_bytes gs)"
    using decode_loop_groups [of "replicate (3 * length gs) 0" gs "[]" "[]"] by simp
  ultimately show ?thesis
    by (simp add: base64ToUint8Array_def concat_groups_alphabet concat_groups_length
        del: decode_loop.simps)
qed

lemma round_trip_multiple_of_3:
  assumes "length b mod 3 = 0"
  shows "base64ToUint8Array (uint8ArrayToBase64 b) = b"
proof -
  obtain n where "length b = 3 * n"
    using assms by (metis mod_0_imp_dvd dvdE)
  then obtain gs where "b = concat (map group_bytes gs)"
    using groups_exist by blast
  then show ?thesis
    using round_trip_groups by simp
qed

lemma round_trip_iff:
  "base64ToUint8Array (uint8ArrayToBase64 b) = b \<longleftrightarrow> length b mod 3 = 0"
  using round_trip_fails [of b] round_trip_multiple_of_3 [of b] by auto

subsection \<open>The logged pipeline\<close>

lemma fst_rethrow: "fst (rethrow m wrap) = fst m"
  by (simp add: rethrow_def split: sum.splits)

lemma snd_rethrow:
  "snd (rethrow m wrap) = (case snd m of Inl msg \<Rightarrow> Inl (wrap msg) | Inr v \<Rightarrow> Inr v)"
  by (simp add: rethrow_def split: sum.splits)

subsection \<open>The route of a HEIC image on the server\<close>

lemma detect_and_decode_heic:
  assumes "sharp_metadata E imageBuffer = Inr md"
    and "md_format md = Some ''heic'' \<or> md_format md = Some ''heif''"
  shows "detect_and_decode E imageBuffer =
           (case heicConvert E imageBuffer of
              Inl msg \<Rightarrow>
                ([SharpMetadata imageBuffer, HeicConvert imageBuffer], Inl (heic_failed msg))
            | Inr jpegBuffer \<Rightarrow>
                ([SharpMetadata imageBuffer, HeicConvert imageBuffer, SharpDecode jpegBuffer],
                 (case sharp_resize_jpeg E jpegBuffer of
                    Inl msg \<Rightarrow> Inl (heic_failed msg)
                  | Inr processedImage \<Rightarrow> Inr processedImage)))"
  using assms
  by (auto simp add: detect_and_decode_def and_then_def rethrow_def sharp_metadata_call_def
      heicConvert_call_def sharp_decode_call_def split: sum.splits)

lemma detect_and_decode_other:
  assumes "sharp_metadata E imageBuffer = Inr md"
    and "md_format md \<noteq> Some ''heic''" and "md_format md \<noteq> Some ''heif''"
  shows "detect_and_decode E imageBuffer =
           ([SharpMetadata imageBuffer, SharpDecode imageBuffer], sharp_resize_jpeg E imageBuffer)"
  using assms
  by (simp add: detect_and_decode_def and_then_def sharp_metadata_call_def sharp_decode_call_def)

lemma measure_and_compose_calls:
  "filter is_decode (fst (measure_and_compose E fs originalName processedImage)) = []"
  by (simp add: measure_and_compose_def and_then_def sharp_metadata_call_def split: sum.splits)

lemma convertImageToPDF_decodes:
  assumes "fs filePath = Some imageBuffer"
  shows "filter is_decode (fst (convertImageToPDF E fs filePath originalName)) =
           filter is_decode (fst (detect_and_decode E imageBuffer))"
  using assms
  by (simp add: convertImageToPDF_def convertImageToPDF_body_def readFileSync_def fst_rethrow
      normalize_image_def and_then_def snd_rethrow measure_and_compose_calls split: sum.splits)

lemma convertImageToPDF_result:
  assumes "fs filePath = Some imageBuffer"
  shows "snd (convertImageToPDF E fs filePath originalName) =
           (case snd (normalize_image E imageBuffer) of
              Inl msg \<Rightarrow> Inl (conversion_failed msg)
            | Inr processedImage \<Rightarrow>
                snd (rethrow (measure_and_compose E fs originalName processedImage)
                       conversion_failed))"
  using assms
  by (simp add: convertImageToPDF_def convertImageToPDF_body_def readFileSync_def
      and_then_def snd_rethrow split: sum.splits)

text \<open>Every other detected format goes to the generic decoder directly.\<close>

lemma other_formats_decoded_directly:
  assumes "fs filePath = Some imageBuffer"
    and "sharp_metadata E imageBuffer = Inr md"
    and "md_format md \<noteq> Some ''heic''" and "md_format md \<noteq> Some ''heif''"
  shows "filter is_decode (fst (convertImageToPDF E fs filePath originalName)) =
           [SharpDecode imageBuffer]"
  using assms convertImageToPDF_decodes [of fs filePath imageBuffer E originalName]
    detect_and_decode_other [of E imageBuffer md]
  by simp

text \<open>
  C6. When sharp's format detection on the uploaded buffer says HEIC or HEIF, the
  normalized image is what the generic decoder makes of the HEIC sub-decoder's output
  (or the sub-decoder's or the decoder's failure, classified), never what it makes of the
  uploaded buffer; the PDF is composed from that normalized image; and the decoder calls
  of the conversion are exactly these: the sub-decoder on the uploaded buffer and then,
  if that succeeded, the generic decoder on the sub-decoder's output. The MIME hint has
  no part in the route: under every hint that starts with \<^verbatim>\<open>image/\<close> result and calls
  are the same, and under any other hint nothing is decoded.
\<close>

theorem heic_routed_through_sub_decoder:
  assumes "fs filePath = Some imageBuffer"
    and "sharp_metadata E imageBuffer = Inr md"
    and "md_format md = Some ''heic'' \<or> md_format md = Some ''heif''"
  shows "snd (normalize_image E imageBuffer) =
           (case heicConvert E imageBuffer of
              Inl msg \<Rightarrow> Inl (classify_sharp_error (heic_failed msg))
            | Inr jpegBuffer \<Rightarrow>
                (case sharp_resize_jpeg E jpegBuffer of
                   Inl msg \<Rightarrow> Inl (classify_sharp_error (heic_failed msg))
                 | Inr processedImage \<Rightarrow> Inr processedImage)) \<and>
         snd (convertDocumentToPDF E fs filePath originalName mimeType) =
           (if startsWith mimeType ''image/''
            then (case snd (normalize_image E imageBuffer) of
                    Inl msg \<Rightarrow> Inl (conversion_failed msg)
                  | Inr processedImage \<Rightarrow>
                      snd (rethrow (measure_and_compose E fs originalName processedImage)
                             conversion_failed))
            else Inl (''Unsupported file type: '' @ mimeType)) \<and>
         filter is_decode (fst (convertDocumentToPDF E fs filePath originalName mimeType)) =
           (if startsWith mimeType ''image/''
            then HeicConvert imageBuffer #
                 (case heicConvert E imageBuffer of Inl msg \<Rightarrow> []
                  | Inr jpegBuffer \<Rightarrow> [SharpDecode jpegBuffer])
            else [])"
  using convertImageToPDF_decodes [of fs filePath imageBuffer E originalName]
    convertImageToPDF_result [of fs filePath imageBuffer E originalName]
    detect_and_decode_heic [of E imageBuffer md] assms
  by (simp add: convertDocumentToPDF_def normalize_image_def snd_rethrow split: sum.splits)

lemma heic_env_facts:
  "sharp_metadata heic_env heic_photo = Inr (sample_metadata ''heif'' 1000 1000)"
  "heicConvert heic_env heic_photo = Inr heic_as_jpeg"
  "sharp_resize_jpeg heic_env heic_as_jpeg = Inr sample_jpeg"
  "sharp_resize_jpeg heic_env heic_photo =
     Inl ''heif: Unsupported feature: Unsupported codec (4.3000)''"
  by (simp_all add: heic_env_def one_image_env_def heic_photo_def heic_as_jpeg_def)

text \<open>
  A HEIC photograph labelled \<^verbatim>\<open>image/jpeg\<close>, on a server whose sharp cannot decode
  HEIC itself: the conversion goes through heic-convert and succeeds.
\<close>

theorem heic_routed_witness:
  "heic_on_server (path mislabelled_upload) = Some heic_photo \<and>
   sharp_metadata heic_env heic_photo = Inr (sample_metadata ''heif'' 1000 1000) \<and>
   md_format (sample_metadata ''heif'' 1000 1000) = Some ''heif'' \<and>
   mimetype mislabelled_upload = ''image/jpeg'' \<and>
   snd (normalize_image heic_env heic_photo) = Inr sample_jpeg \<and>
   filter is_decode
     (fst (convertDocumentToPDF heic_env heic_on_server (path mislabelled_upload)
             (originalname mislabelled_upload) (mimetype mislabelled_upload))) =
     [HeicConvert heic_photo, SharpDecode heic_as_jpeg]"
  using heic_routed_through_sub_decoder [of heic_on_server "path mislabelled_upload" heic_photo
          heic_env "sample_metadata ''heif'' 1000 1000"
          "originalname mislabelled_upload" "mimetype mislabelled_upload"]
  by (simp add: heic_env_facts heic_on_server_def mislabelled_upload_def sample_metadata_def
      startsWith_def)

subsection \<open>The two variants compared\<close>













subsection \<open>The uploaded file\<close>

lemma unlinkSync_removes:
  "(case unlinkSync fs p of Inl cleanupError \<Rightarrow> fs | Inr fs' \<Rightarrow> fs') = fs(p := None)"
  by (simp add: unlinkSync_def fun_upd_idem split: option.splits)

text \<open>After a conversion that succeeded the uploaded file is gone.\<close>

lemma upload_released_after_conversion:
  assumes "convertToPDF E user (Some f) st = (Json 200 b, st')"
  shows "files st' (path f) = None"
  using assms
  by (auto simp add: convertToPDF_def store_conversion_def unlinkSync_removes Let_def
      split: option.splits if_splits sum.splits)

text \<open>After a conversion that failed the whole state is as before, in every environment.\<close>

lemma failed_conversion_keeps_state:
  assumes "mimetype f \<in> set getSupportedMimeTypes"
    and "snd (convertDocumentToPDF E (files st) (path f) (originalname f) (mimetype f)) = Inl msg"
  shows "convertToPDF E (Some uid) (Some f) st =
           (Json 500 (Error (or_else msg ''Internal server error'')), st)"
  using assms by (simp add: convertToPDF_def)

lemma corrupt_message:
  "\<not> str_includes ''Input buffer contains unsupported image format'' ''heif''"
  "\<not> str_includes ''Input buffer contains unsupported image format'' ''heic''"
  "\<not> str_includes ''Input buffer contains unsupported image format'' ''decoding plugin''"
  "\<not> str_includes ''Input buffer contains unsupported image format'' ''bad seek''"
  by (simp_all add: startsWith_def)

text \<open>
  C7. After a conversion that failed the uploaded file is still there: the
  \<^verbatim>\<open>unlinkSync\<close> of \<^verbatim>\<open>convertToPDF\<close> comes after the \<^verbatim>\<open>await\<close> of the conversion, inside
  the same \<^verbatim>\<open>try\<close>, so an error thrown by the conversion skips it. Here sharp rejects
  an upload of type \<^verbatim>\<open>image/jpeg\<close>; the reply is 500 and the state is unchanged.
\<close>

theorem upload_kept_when_conversion_fails:
  "convertToPDF corrupt_env (Some ''alice'') (Some sample_upload) upload_state =
     (Json 500 (Error (''Failed to convert image to PDF: Image processing failed: '' @
                       ''Input buffer contains unsupported image format'')),
      upload_state) \<and>
   files upload_state (path sample_upload) = Some heic_bytes"
  by (simp add: convertToPDF_def convertDocumentToPDF_def convertImageToPDF_def
      convertImageToPDF_body_def readFileSync_def normalize_image_def detect_and_decode_def
      and_then_def rethrow_def sharp_metadata_call_def conversion_failed_def
      classify_sharp_error_def
      corrupt_env_def sample_upload_def upload_state_def getSupportedMimeTypes_def
      startsWith_def or_else_def corrupt_message)

subsection \<open>Purge after a complete download\<close>

lemma cleanup_after_delivery_eq:
  "cleanup_after_delivery d st =
     \<lparr>db = (db st)(conversionId d := None), files = (files st)(fullPath d := None)\<rparr>"
  by (cases st)
     (auto simp add: cleanup_after_delivery_def delete_record_def unlinkSync_def
        prisma_delete_def fun_upd_idem split: option.splits)

lemma completes_Nil: "\<not> completes []"
  by (simp add: completes_def)

lemma completes_snoc:
  "completes (events @ [e]) \<longleftrightarrow>
     completes events \<or> (e = ResFinish \<and> StreamEnd \<in> set events \<and> StreamError \<notin> set events)"
  by (auto simp add: completes_def lessThan_Suc nth_append)

lemma deliver_snoc: "deliver (events @ [e]) start = handle e (deliver events start)"
  by (simp add: deliver_def)

text \<open>
  The three flags of the handlers record the events seen so far, and the state is purged
  as soon as the events seen so far complete a download.
\<close>

lemma deliver_invariant:
  assumes "statusCode d = 200" and "\<not> streamEnded d" and "\<not> hasStreamError d"
  shows "streamEnded (fst (deliver events (d, st))) = (StreamEnd \<in> set events) \<and>
         hasStreamError (fst (deliver events (d, st))) = (StreamError \<in> set events) \<and>
         (StreamError \<notin> set events \<longrightarrow> statusCode (fst (deliver events (d, st))) = 200) \<and>
         fullPath (fst (deliver events (d, st))) = fullPath d \<and>
         conversionId (fst (deliver events (d, st))) = conversionId d \<and>
         snd (deliver events (d, st)) =
           (if completes events
            then \<lparr>db = (db st)(conversionId d := None), files = (files st)(fullPath d := None)\<rparr>
            else st)"
proof (induction events rule: rev_induct)
  case Nil
  show ?case using assms by (simp add: deliver_def completes_Nil)
next
  case (snoc e events)
  obtain d1 st1 where run: "deliver events (d, st) = (d1, st1)"
    by (cases "deliver events (d, st)")
  show ?case
    using snoc run
    by (cases e) (auto simp add: deliver_snoc completes_snoc cleanup_after_delivery_eq)
qed

lemma getPDF_begin_accepted:
  assumes "db st cid = Some c"
  shows "(\<exists>d. getPDF_begin user cid st = Inr d \<and> conversionId d = cid \<and>
              fullPath d = stored_file c \<and> statusCode d = 200 \<and> \<not> streamEnded d \<and>
              \<not> hasStreamError d) \<longleftrightarrow> accepted user c st"
  using assms
  by (auto simp add: getPDF_begin_def accepted_def stored_file_def Let_def
      split: option.splits)

lemma getPDF_begin_rejected:
  assumes "db st cid = Some c" and "\<not> accepted user c st"
  shows "\<exists>reply. getPDF_begin user cid st = Inl reply"
  using assms
  by (auto simp add: getPDF_begin_def accepted_def stored_file_def Let_def
      split: option.splits)

text \<open>
  C3. For a persisted record, whatever events the runtime delivers: if the request was
  accepted with status 200 and the events complete a download (the response finishes
  after the stream's end and with no stream error before), the state after \<open>getPDF\<close> is
  the state before without the record and without its file; in every other case, among
  them a client that disconnects and a stream error, the state after is the state before,
  record and file included.
\<close>

theorem purge_exactly_on_complete_delivery:
  assumes "db st cid = Some c"
  shows "snd (getPDF user cid st events) =
           (if accepted user c st \<and> completes events
            then \<lparr>db = (db st)(cid := None), files = (files st)(stored_file c := None)\<rparr>
            else st)"
proof (cases "accepted user c st")
  case True
  then obtain d where d: "getPDF_begin user cid st = Inr d" "conversionId d = cid"
      "fullPath d = stored_file c" "statusCode d = 200" "\<not> streamEnded d" "\<not> hasStreamError d"
    using getPDF_begin_accepted [OF assms, of user] by blast
  show ?thesis
    using True d deliver_invariant [of d events st]
    by (simp add: getPDF_def)
next
  case False
  then obtain reply where "getPDF_begin user cid st = Inl reply"
    using getPDF_begin_rejected [OF assms] by blast
  then show ?thesis
    using False by (simp add: getPDF_def)
qed

lemma sample_facts:
  "db sample_state ''c1'' = Some sample_row"
  "stored_file sample_row = ''./uploads/pdfs/photo-1768164557000.pdf''"
  "accepted (Some ''alice'') sample_row sample_state"
  by (simp_all add: sample_state_def sample_row_def stored_file_def accepted_def
      path_join_def UPLOAD_DIR_def remove_uploads_prefix_def startsWith_def)

lemma completes_delivered: "completes [StreamData, StreamEnd, ResFinish, ResClose]"
  unfolding completes_def
  by (rule bexI [of _ 2]) simp_all

lemma completes_disconnected: "\<not> completes [StreamData, ResClose]"
  by (simp add: completes_def lessThan_Suc numeral_2_eq_2)

lemma completes_stream_error: "\<not> completes [StreamData, StreamError, ResFinish, ResClose]"
  by (simp add: completes_def lessThan_Suc eval_nat_numeral)

text \<open>
  Alice's record: a complete download empties the state; a disconnect after the first
  chunk, a stream error, and a download attempted by Bob leave it as it was.
\<close>

theorem purge_witness:
  "db sample_state ''c1'' = Some sample_row \<and>
   snd (getPDF (Some ''alice'') ''c1'' sample_state [StreamData, StreamEnd, ResFinish, ResClose]) =
     \<lparr>db = Map.empty, files = Map.empty\<rparr> \<and>
   snd (getPDF (Some ''alice'') ''c1'' sample_state [StreamData, ResClose]) = sample_state \<and>
   snd (getPDF (Some ''alice'') ''c1'' sample_state [StreamData, StreamError, ResFinish, ResClose]) =
     sample_state \<and>
   snd (getPDF (Some ''bob'') ''c1'' sample_state [StreamData, StreamEnd, ResFinish, ResClose]) =
     sample_state"
  using purge_exactly_on_complete_delivery [OF sample_facts(1),
          of "Some ''alice''" "[StreamData, StreamEnd, ResFinish, ResClose]"]
        purge_exactly_on_complete_delivery [OF sample_facts(1),
          of "Some ''alice''" "[StreamData, ResClose]"]
        purge_exactly_on_complete_delivery [OF sample_facts(1),
          of "Some ''alice''" "[StreamData, StreamError, ResFinish, ResClose]"]
        purge_exactly_on_complete_delivery [OF sample_facts(1),
          of "Some ''bob''" "[StreamData, StreamEnd, ResFinish, ResClose]"]
  by (simp add: sample_facts completes_delivered completes_disconnected completes_stream_error)
     (simp add: sample_state_def accepted_def sample_row_def)

subsection \<open>Ownership\<close>

text \<open>
  C4, as stated, fails where no record exists: a deletion of an id that is not in the
  table is answered with status 200, whoever calls.
\<close>

theorem delete_missing_record_succeeds:
  "deleteConversion (Some ''mallory'') ''c9'' sample_state =
     (Json 200 (Message ''Conversion already deleted or not found''), sample_state)"
  by (simp add: deleteConversion_def sample_state_def)

text \<open>
  C4, amended. An authenticated caller who is not the owner of an existing record gets
  403 Forbidden from both the retrieval and the deletion, with no content and no change
  of state. Where no record has the id, the retrieval is answered 404 and the deletion
  reports success.
\<close>

theorem non_owner_forbidden:
  "(db st cid = Some c \<and> userId c \<noteq> uid \<longrightarrow>
      getPDF (Some uid) cid st events = (Inl (Json 403 (Error ''Forbidden'')), st) \<and>
      deleteConversion (Some uid) cid st = (Json 403 (Error ''Forbidden''), st)) \<and>
   (db st cid = None \<longrightarrow>
      getPDF (Some uid) cid st events = (Inl (Json 404 (Error ''Conversion not found'')), st) \<and>
      deleteConversion (Some uid) cid st =
        (Json 200 (Message ''Conversion already deleted or not found''), st))"
  by (simp add: getPDF_def getPDF_begin_def deleteConversion_def)

theorem non_owner_forbidden_witness:
  "db sample_state ''c1'' = Some sample_row \<and> userId sample_row \<noteq> ''bob'' \<and>
   getPDF (Some ''bob'') ''c1'' sample_state [StreamData, StreamEnd, ResFinish] =
     (Inl (Json 403 (Error ''Forbidden'')), sample_state) \<and>
   deleteConversion (Some ''bob'') ''c1'' sample_state =
     (Json 403 (Error ''Forbidden''), sample_state) \<and>
   db sample_state ''c9'' = None \<and>
   getPDF (Some ''bob'') ''c9'' sample_state [StreamData, StreamEnd, ResFinish] =
     (Inl (Json 404 (Error ''Conversion not found'')), sample_state)"
  using non_owner_forbidden [of sample_state "''c1''" sample_row "''bob''"
          "[StreamData, StreamEnd, ResFinish]"]
        non_owner_forbidden [of sample_state "''c9''" sample_row "''bob''"
          "[StreamData, StreamEnd, ResFinish]"]
  by (simp add: sample_state_def sample_row_def)

subsection \<open>Deletion\<close>

text \<open>
  C5, as stated, fails for a caller who does not own the record: both deletions are
  answered 403.
\<close>

theorem delete_by_non_owner_fails:
  "status (fst (deleteConversion (Some ''bob'') ''c1'' sample_state)) = 403 \<and>
   status (fst (deleteConversion (Some ''bob'') ''c1''
                  (snd (deleteConversion (Some ''bob'') ''c1'' sample_state)))) = 403"
  by (simp add: deleteConversion_def sample_state_def sample_row_def)

text \<open>
  C5, amended. For an authenticated caller and an id whose record is missing or owned by
  the caller, whatever files exist: the deletion is answered 200, the record is gone
  after it, and a second deletion is answered 200 again and changes nothing.
\<close>

theorem delete_idempotent:
  assumes "db st cid = None \<or> (\<exists>c. db st cid = Some c \<and> userId c = uid)"
  shows "status (fst (deleteConversion (Some uid) cid st)) = 200 \<and>
         db (snd (deleteConversion (Some uid) cid st)) cid = None \<and>
         deleteConversion (Some uid) cid (snd (deleteConversion (Some uid) cid st)) =
           (Json 200 (Message ''Conversion already deleted or not found''),
            snd (deleteConversion (Some uid) cid st))"
  using assms
  by (auto simp add: deleteConversion_def prisma_delete_def Let_def)

theorem delete_idempotent_witness:
  "(db sample_state ''c1'' = None \<or>
      (\<exists>c. db sample_state ''c1'' = Some c \<and> userId c = ''alice'')) \<and>
   status (fst (deleteConversion (Some ''alice'') ''c1'' sample_state)) = 200 \<and>
   status (fst (deleteConversion (Some ''alice'') ''c1''
                  (snd (deleteConversion (Some ''alice'') ''c1'' sample_state)))) = 200"
  using delete_idempotent [of sample_state "''c1''" "''alice''"]
  by (simp add: sample_state_def sample_row_def)

end
